theory Spec2Isabelle
  imports Main "HOL-Library.Sublist"
begin

section \<open>pyEPR \<open>project_info.py\<close>: the session handle \<open>ProjectInfo\<close>\<close>

text \<open>
  \<open>ProjectInfo\<close> keeps the names of the project, design and setup in use, the
  junctions and ports declared by the user, and the live handles of the Ansys
  application. Every method is embedded as a function of the object's fields
  (\<open>self\<close>) and of the list of calls made to Ansys so far (\<open>log\<close>); it returns the
  value or the exception of the method, the fields after the call and the
  extended log. Calls to \<open>logger\<close> only print and are left out.
\<close>

subsection \<open>Exceptions\<close>

text \<open>
  An exception object has its class, its message, the traceback attached to it
  and the exception that was being handled when it was raised
  (\<open>__context__\<close>). The traceback is a list of frames; the frames the
  interpreter adds while an exception unwinds are not recorded, so an exception
  raised in this module starts with the empty traceback. Every value of \<open>exn\<close>
  is an instance of Python's \<open>Exception\<close>: \<open>Foreign\<close> stands for the classes
  the Ansys interface raises.
\<close>

type_synonym traceback = "string list"

datatype exn_class = AssertionError | AttributeError | KeyError | Exception | Foreign string

datatype exn =
  Exn (exn_class: exn_class) (exn_msg: string) (exn_traceback: traceback) (exn_context: "exn option")

subsection \<open>Handles and the Ansys interface\<close>

text \<open>
  The handle classes live in \<open>pyEPR.ansys\<close>. This module reads the \<open>name\<close> of a
  project, design and setup and the \<open>solution_type\<close> of a design, and calls the
  methods listed in \<open>call\<close>.
\<close>

datatype HfssApp = HfssApp nat

datatype HfssDesktop = HfssDesktop nat

datatype HfssProject = HfssProject (proj_id: nat) (proj_name: string)

datatype HfssDesign = HfssDesign (des_id: nat) (des_name: string) (solution_type: string)

datatype HfssSetup = HfssSetup (stp_id: nat) (stp_name: string)

datatype call =
    Load_ansys_project "string option" "string option"
  | Project_get_path HfssProject
  | Project_get_active_design HfssProject
  | Project_get_design HfssProject string
  | Design_get_setup_names HfssDesign
  | Design_create_em_setup HfssDesign
  | Design_create_dm_setup HfssDesign
  | Design_get_setup HfssDesign "string option"
  | Project_get_variable_names HfssProject
  | Design_get_variable_names HfssDesign
  | Modeler_get_objects_in_group HfssDesign string
  | Project_release HfssProject
  | Desktop_release HfssDesktop
  | App_release HfssApp
  | Ansys_release

text \<open>
  The code of \<open>pyEPR.ansys\<close> is not part of this module, so the interface is a
  parameter: for each method, the answer it gives (a value or an exception)
  after a given history of calls. An answer may depend on every earlier call,
  as the answers of a stateful application do.
\<close>

record ansys =
  load_ansys_project :: "call list \<Rightarrow> string option \<Rightarrow> string option
                          \<Rightarrow> exn + (HfssApp \<times> HfssDesktop \<times> HfssProject)"
  project_get_path :: "call list \<Rightarrow> HfssProject \<Rightarrow> exn + string"
  project_get_active_design :: "call list \<Rightarrow> HfssProject \<Rightarrow> exn + HfssDesign"
  project_get_design :: "call list \<Rightarrow> HfssProject \<Rightarrow> string \<Rightarrow> exn + HfssDesign"
  design_get_setup_names :: "call list \<Rightarrow> HfssDesign \<Rightarrow> exn + string list"
  design_create_em_setup :: "call list \<Rightarrow> HfssDesign \<Rightarrow> exn + HfssSetup"
  design_create_dm_setup :: "call list \<Rightarrow> HfssDesign \<Rightarrow> exn + HfssSetup"
  design_get_setup :: "call list \<Rightarrow> HfssDesign \<Rightarrow> string option \<Rightarrow> exn + HfssSetup option"
  project_get_variable_names :: "call list \<Rightarrow> HfssProject \<Rightarrow> exn + string list"
  design_get_variable_names :: "call list \<Rightarrow> HfssDesign \<Rightarrow> exn + string list"
  modeler_get_objects_in_group :: "call list \<Rightarrow> HfssDesign \<Rightarrow> string \<Rightarrow> exn + string list"
  project_release :: "call list \<Rightarrow> HfssProject \<Rightarrow> exn + unit"
  desktop_release :: "call list \<Rightarrow> HfssDesktop \<Rightarrow> exn + unit"
  app_release :: "call list \<Rightarrow> HfssApp \<Rightarrow> exn + unit"
  ansys_release :: "call list \<Rightarrow> exn + unit"

subsection \<open>The fields of \<open>ProjectInfo\<close>\<close>

text \<open>
  A junction record is a Python dict from field names to values; only the
  name-valued fields \<open>Lj_variable\<close>, \<open>rect\<close> and \<open>line\<close> are read here.
  \<open>junctions\<close> and \<open>ports\<close> are ordered dicts: lists of pairs in insertion
  order. The field \<open>setup\<close> is written \<open>setup'\<close>.
\<close>

type_synonym junction = "string \<rightharpoonup> string"

record Dissipative =
  dielectrics_bulk :: "string list option"
  dielectric_surfaces :: "string list option"
  resistive_surfaces :: "string list option"
  seams :: "string list option"

record pinfo =
  project_path :: "string option"
  project_name :: "string option"
  design_name :: "string option"
  setup_name :: "string option"
  junctions :: "(string \<times> junction) list"
  ports :: "(string \<times> junction) list"
  dissipative :: Dissipative
  app :: "HfssApp option"
  desktop :: "HfssDesktop option"
  project :: "HfssProject option"
  design :: "HfssDesign option"
  setup' :: "HfssSetup option"

type_synonym 'a outcome = "(exn + 'a) \<times> pinfo \<times> call list"

text \<open>Reading an attribute of \<open>None\<close> raises \<open>AttributeError\<close> for that attribute.\<close>

definition none_has_no :: "string \<Rightarrow> exn" where
  "none_has_no attr = Exn AttributeError attr [] None"

subsection \<open>Message texts\<close>

text \<open>The emoji of the messages, as their UTF-8 bytes.\<close>

definition loudly_crying_face :: string where
  "loudly_crying_face = [CHR 0xF0, CHR 0x9F, CHR 0x98, CHR 0xAD]"

definition nauseated_face :: string where
  "nauseated_face = [CHR 0xF0, CHR 0x9F, CHR 0xA4, CHR 0xA2]"

definition face_with_medical_mask :: string where
  "face_with_medical_mask = [CHR 0xF0, CHR 0x9F, CHR 0x98, CHR 0xB7]"

definition not_connected_msg :: string where
  "not_connected_msg =
     ''It does not appear that you have connected to HFSS yet.''
     @ ''            Use the connect()  method. '' @ nauseated_face"

subsection \<open>\<open>check_connected\<close> and \<open>disconnect\<close>\<close>

definition check_connected :: "pinfo \<Rightarrow> call list \<Rightarrow> bool outcome" where
  "check_connected self log =
     (Inr (setup' self \<noteq> None \<and> design self \<noteq> None \<and> project self \<noteq> None
           \<and> desktop self \<noteq> None \<and> app self \<noteq> None), self, log)"

definition disconnect :: "ansys \<Rightarrow> pinfo \<Rightarrow> call list \<Rightarrow> unit outcome" where
  "disconnect A self log =
     (case check_connected self log of
        (Inl e, self1, log1) \<Rightarrow> (Inl e, self1, log1)
      | (Inr c, self1, log1) \<Rightarrow>
          if \<not> c then (Inl (Exn AssertionError not_connected_msg [] None), self1, log1)
          else (case project self1 of
            None \<Rightarrow> (Inl (none_has_no ''release''), self1, log1)
          | Some p \<Rightarrow>
              let log2 = log1 @ [Project_release p] in
              (case project_release A log1 p of
                 Inl e \<Rightarrow> (Inl e, self1, log2)
               | Inr _ \<Rightarrow>
                  (case desktop self1 of
                     None \<Rightarrow> (Inl (none_has_no ''release''), self1, log2)
                   | Some d \<Rightarrow>
                       let log3 = log2 @ [Desktop_release d] in
                       (case desktop_release A log2 d of
                          Inl e \<Rightarrow> (Inl e, self1, log3)
                        | Inr _ \<Rightarrow>
                           (case app self1 of
                              None \<Rightarrow> (Inl (none_has_no ''release''), self1, log3)
                            | Some a \<Rightarrow>
                                let log4 = log3 @ [App_release a] in
                                (case app_release A log3 a of
                                   Inl e \<Rightarrow> (Inl e, self1, log4)
                                 | Inr _ \<Rightarrow>
                                     (ansys_release A log4, self1, log4 @ [Ansys_release]))))))))"

subsection \<open>\<open>get_all_variables_names\<close> and \<open>get_all_object_names\<close>\<close>

text \<open>
  \<open>self.project.get_variable_names() + self.design.get_variable_names()\<close>: the
  left operand is evaluated first, and \<open>self.design\<close> is read after the
  project has answered.
\<close>

definition get_all_variables_names :: "ansys \<Rightarrow> pinfo \<Rightarrow> call list \<Rightarrow> string list outcome" where
  "get_all_variables_names A self log =
     (case project self of
        None \<Rightarrow> (Inl (none_has_no ''get_variable_names''), self, log)
      | Some p \<Rightarrow>
          let log1 = log @ [Project_get_variable_names p] in
          (case project_get_variable_names A log p of
             Inl e \<Rightarrow> (Inl e, self, log1)
           | Inr pv \<Rightarrow>
              (case design self of
                 None \<Rightarrow> (Inl (none_has_no ''get_variable_names''), self, log1)
               | Some d \<Rightarrow>
                   let log2 = log1 @ [Design_get_variable_names d] in
                   (case design_get_variable_names A log1 d of
                      Inl e \<Rightarrow> (Inl e, self, log2)
                    | Inr dv \<Rightarrow> (Inr (pv @ dv), self, log2)))))"

text \<open>The loop \<open>for s in [...]: o_objects += self.design.modeler.get_objects_in_group(s)\<close>.\<close>

fun objects_loop :: "ansys \<Rightarrow> pinfo \<Rightarrow> string list \<Rightarrow> string list \<Rightarrow> call list
                     \<Rightarrow> string list outcome" where
  "objects_loop A self [] o_objects log = (Inr o_objects, self, log)"
| "objects_loop A self (s # ss) o_objects log =
     (case design self of
        None \<Rightarrow> (Inl (none_has_no ''modeler''), self, log)
      | Some d \<Rightarrow>
          (case modeler_get_objects_in_group A log d s of
             Inl e \<Rightarrow> (Inl e, self, log @ [Modeler_get_objects_in_group d s])
           | Inr names \<Rightarrow>
               objects_loop A self ss (o_objects @ names)
                 (log @ [Modeler_get_objects_in_group d s])))"

definition object_groups :: "string list" where
  "object_groups = [''Non Model'', ''Solids'', ''Unclassified'', ''Sheets'', ''Lines'']"

definition get_all_object_names :: "ansys \<Rightarrow> pinfo \<Rightarrow> call list \<Rightarrow> string list outcome" where
  "get_all_object_names A self log = objects_loop A self object_groups [] log"

subsection \<open>\<open>validate_junction_info\<close>\<close>

text \<open>
  The two assertion messages, after \<open>%\<close> has filled in the junction name, the
  field name and the value. The triple-quoted literals keep their line breaks
  and the indentation of the source.
\<close>

definition Lj_variable_msg :: "string \<Rightarrow> string \<Rightarrow> string" where
  "Lj_variable_msg jjnm v =
     ''pyEPR ProjectInfo user error found '' @ face_with_medical_mask @ '':'' @ [CHR 0x0A]
     @ ''                Seems like for junction `'' @ jjnm @ ''` you specified a design or project''
     @ [CHR 0x0A]
     @ ''                variable for `Lj_variable` that does not exist in HFSS by the name:''
     @ [CHR 0x0A]
     @ ''                 `'' @ v @ ''` ''"

definition object_msg :: "string \<Rightarrow> string \<Rightarrow> string \<Rightarrow> string" where
  "object_msg jjnm name v =
     ''pyEPR ProjectInfo user error found '' @ face_with_medical_mask @ '':'' @ [CHR 0x0A]
     @ ''                    Seems like for junction `'' @ jjnm @ ''` you specified a '' @ name
     @ '' that does not exist'' @ [CHR 0x0A]
     @ ''                    in HFSS by the name: `'' @ v @ ''` ''"

text \<open>\<open>jj[k]\<close> on a dict: a missing key raises \<open>KeyError\<close>.\<close>

definition getitem :: "junction \<Rightarrow> string \<Rightarrow> exn + string" where
  "getitem jj k = (case jj k of None \<Rightarrow> Inl (Exn KeyError k [] None) | Some v \<Rightarrow> Inr v)"

text \<open>The inner loop \<open>for name in ['rect', 'line']\<close>.\<close>

fun check_object_fields :: "string list \<Rightarrow> string \<Rightarrow> junction \<Rightarrow> string list \<Rightarrow> exn + unit" where
  "check_object_fields all_object_names jjnm jj [] = Inr ()"
| "check_object_fields all_object_names jjnm jj (name # names) =
     (case getitem jj name of
        Inl e \<Rightarrow> Inl e
      | Inr v \<Rightarrow>
          if v \<in> set all_object_names
          then check_object_fields all_object_names jjnm jj names
          else Inl (Exn AssertionError (object_msg jjnm name v) [] None))"

text \<open>The outer loop \<open>for jjnm, jj in self.junctions.items()\<close>.\<close>

fun validate_loop :: "string list \<Rightarrow> string list \<Rightarrow> (string \<times> junction) list \<Rightarrow> exn + unit" where
  "validate_loop all_variables_names all_object_names [] = Inr ()"
| "validate_loop all_variables_names all_object_names ((jjnm, jj) # rest) =
     (case getitem jj ''Lj_variable'' of
        Inl e \<Rightarrow> Inl e
      | Inr v \<Rightarrow>
          if v \<notin> set all_variables_names
          then Inl (Exn AssertionError (Lj_variable_msg jjnm v) [] None)
          else (case check_object_fields all_object_names jjnm jj [''rect'', ''line''] of
                  Inl e \<Rightarrow> Inl e
                | Inr _ \<Rightarrow> validate_loop all_variables_names all_object_names rest))"

definition validate_junction_info :: "ansys \<Rightarrow> pinfo \<Rightarrow> call list \<Rightarrow> unit outcome" where
  "validate_junction_info A self log =
     (case get_all_variables_names A self log of
        (Inl e, self1, log1) \<Rightarrow> (Inl e, self1, log1)
      | (Inr all_variables_names, self1, log1) \<Rightarrow>
          (case get_all_object_names A self1 log1 of
             (Inl e, self2, log2) \<Rightarrow> (Inl e, self2, log2)
           | (Inr all_object_names, self2, log2) \<Rightarrow>
               (validate_loop all_variables_names all_object_names (junctions self2),
                self2, log2)))"

text \<open>
  The validation as the specification words it, to compare with the loops above.
  The checks are the pairs of a junction and a field, junction by junction in
  insertion order and, within a junction, \<open>Lj_variable\<close>, \<open>rect\<close>, \<open>line\<close>; each
  check carries the value the record has for the field, if any. A check passes
  when the value is in the list its field is looked up in: the variable names
  for \<open>Lj_variable\<close>, the object names for \<open>rect\<close> and \<open>line\<close>.
\<close>

type_synonym junction_check = "string \<times> string \<times> string option"

definition junction_checks :: "(string \<times> junction) list \<Rightarrow> junction_check list" where
  "junction_checks js =
     concat (map (\<lambda>(jjnm, jj). [(jjnm, ''Lj_variable'', jj ''Lj_variable''),
                                (jjnm, ''rect'', jj ''rect''),
                                (jjnm, ''line'', jj ''line'')]) js)"

definition names_for :: "string list \<Rightarrow> string list \<Rightarrow> string \<Rightarrow> string list" where
  "names_for all_variables_names all_object_names f =
     (if f = ''Lj_variable'' then all_variables_names else all_object_names)"

definition check_passes :: "string list \<Rightarrow> string list \<Rightarrow> junction_check \<Rightarrow> bool" where
  "check_passes all_variables_names all_object_names c =
     (case c of (jjnm, f, None) \<Rightarrow> False
              | (jjnm, f, Some v) \<Rightarrow> v \<in> set (names_for all_variables_names all_object_names f))"

definition junction_ok :: "string list \<Rightarrow> string list \<Rightarrow> junction \<Rightarrow> bool" where
  "junction_ok all_variables_names all_object_names jj =
     ((case jj ''Lj_variable'' of None \<Rightarrow> False | Some v \<Rightarrow> v \<in> set all_variables_names)
      \<and> (case jj ''rect'' of None \<Rightarrow> False | Some v \<Rightarrow> v \<in> set all_object_names)
      \<and> (case jj ''line'' of None \<Rightarrow> False | Some v \<Rightarrow> v \<in> set all_object_names))"

definition first_violation :: "string list \<Rightarrow> string list \<Rightarrow> (string \<times> junction) list
                               \<Rightarrow> junction_check option" where
  "first_violation all_variables_names all_object_names js =
     find (\<lambda>c. \<not> check_passes all_variables_names all_object_names c) (junction_checks js)"

text \<open>The exception a failing check raises: the assertion of its field, or \<open>KeyError\<close>.\<close>

definition violation_exn :: "junction_check \<Rightarrow> exn" where
  "violation_exn c =
     (case c of
        (jjnm, f, None) \<Rightarrow> Exn KeyError f [] None
      | (jjnm, f, Some v) \<Rightarrow>
          Exn AssertionError
            (if f = ''Lj_variable'' then Lj_variable_msg jjnm v else object_msg jjnm f v)
            [] None)"

subsection \<open>\<open>get_setup\<close>\<close>

text \<open>
  The test is \<open>name is None\<close>. In the other branch the lookup is by
  \<open>self.setup_name\<close>, the result is stored in \<open>self.setup\<close> before it is
  examined, and \<open>self.setup.name\<close> on a result of \<open>None\<close> raises
  \<open>AttributeError\<close>.
\<close>

definition get_setup :: "ansys \<Rightarrow> string option \<Rightarrow> pinfo \<Rightarrow> call list
                         \<Rightarrow> HfssSetup option outcome" where
  "get_setup A name self log =
     (case name of
        None \<Rightarrow> (Inr None, self, log)
      | Some _ \<Rightarrow>
          (case design self of
             None \<Rightarrow> (Inl (none_has_no ''get_setup''), self, log)
           | Some d \<Rightarrow>
               let log1 = log @ [Design_get_setup d (setup_name self)] in
               (case design_get_setup A log d (setup_name self) of
                  Inl e \<Rightarrow> (Inl e, self, log1)
                | Inr r \<Rightarrow>
                    let self1 = self\<lparr>setup' := r\<rparr> in
                    (case r of
                       None \<Rightarrow> (Inl (none_has_no ''name''), self1, log1)
                     | Some s \<Rightarrow>
                         (Inr (Some s), self1\<lparr>setup_name := Some (stp_name s)\<rparr>, log1)))))"

subsection \<open>\<open>connect\<close>\<close>

text \<open>
  The messages of the two re-raised exceptions. A backslash at the end of a
  line inside a string literal removes the line break and keeps the indentation
  of the next line.
\<close>

definition design_msg :: string where
  "design_msg =
     '' Did you provide the correct design name?''
     @ ''                    Failed to pull up design. '' @ loudly_crying_face"

definition setup_msg :: string where
  "setup_msg =
     '' Did you provide the correct setup name?''
     @ ''                        Failed to pull up setup. '' @ loudly_crying_face"

text \<open>
  \<open>raise Exception(msg).with_traceback(_traceback)\<close> inside \<open>except Exception as e\<close>:
  the new exception takes the traceback of \<open>e\<close>, and \<open>e\<close> becomes its context.
\<close>

definition reraise :: "string \<Rightarrow> exn \<Rightarrow> exn" where
  "reraise msg e = Exn Exception msg (exn_traceback e) (Some e)"

text \<open>
  Lines 184 to 206: the project and the design. The value is the design now
  bound to \<open>self.design\<close>, with the project it belongs to.
\<close>

definition connect_design :: "ansys \<Rightarrow> HfssProject \<Rightarrow> pinfo \<Rightarrow> call list \<Rightarrow> HfssDesign outcome" where
  "connect_design A p self log =
     (case design_name self of
        None \<Rightarrow>
          let log1 = log @ [Project_get_active_design p] in
          (case project_get_active_design A log p of
             Inl e \<Rightarrow> (Inl e, self, log1)
           | Inr d \<Rightarrow> (Inr d, self\<lparr>design := Some d, design_name := Some (des_name d)\<rparr>, log1))
      | Some n \<Rightarrow>
          let log1 = log @ [Project_get_design p n] in
          (case project_get_design A log p n of
             Inl e \<Rightarrow> (Inl (reraise design_msg e), self, log1)
           | Inr d \<Rightarrow> (Inr d, self\<lparr>design := Some d\<rparr>, log1)))"

definition connect_project :: "ansys \<Rightarrow> pinfo \<Rightarrow> call list \<Rightarrow> (HfssProject \<times> HfssDesign) outcome" where
  "connect_project A self log =
     (let log1 = log @ [Load_ansys_project (project_name self) (project_path self)] in
      case load_ansys_project A log (project_name self) (project_path self) of
        Inl e \<Rightarrow> (Inl e, self, log1)
      | Inr (a, k, p) \<Rightarrow>
          let self1 = self\<lparr>app := Some a, desktop := Some k, project := Some p\<rparr>;
              self2 = self1\<lparr>project_name := Some (proj_name p)\<rparr>;
              log2 = log1 @ [Project_get_path p] in
          (case project_get_path A log1 p of
             Inl e \<Rightarrow> (Inl e, self2, log2)
           | Inr path \<Rightarrow>
               (case connect_design A p (self2\<lparr>project_path := Some path\<rparr>) log2 of
                  (Inl e, self3, log3) \<Rightarrow> (Inl e, self3, log3)
                | (Inr d, self3, log3) \<Rightarrow> (Inr (p, d), self3, log3))))"

text \<open>Lines 212 to 222: which setup name to use, creating a setup when there is none.\<close>

definition choose_setup :: "ansys \<Rightarrow> HfssDesign \<Rightarrow> string list \<Rightarrow> pinfo \<Rightarrow> call list
                            \<Rightarrow> unit outcome" where
  "choose_setup A d setup_names self log =
     (case setup_names of
        [] \<Rightarrow>
          if solution_type d = ''Eigenmode'' then
            (case design_create_em_setup A log d of
               Inl e \<Rightarrow> (Inl e, self, log @ [Design_create_em_setup d])
             | Inr s \<Rightarrow>
                 (Inr (), self\<lparr>setup_name := Some (stp_name s)\<rparr>,
                  log @ [Design_create_em_setup d]))
          else if solution_type d = ''DrivenModal'' then
            (case design_create_dm_setup A log d of
               Inl e \<Rightarrow> (Inl e, self, log @ [Design_create_dm_setup d])
             | Inr s \<Rightarrow>
                 (Inr (), self\<lparr>setup_name := Some (stp_name s)\<rparr>,
                  log @ [Design_create_dm_setup d]))
          else (Inr (), self, log)
      | n # _ \<Rightarrow> (Inr (), self\<lparr>setup_name := Some n\<rparr>, log))"

text \<open>Lines 210 to 225: the body of the second \<open>try\<close>.\<close>

definition connect_setup :: "ansys \<Rightarrow> HfssDesign \<Rightarrow> pinfo \<Rightarrow> call list \<Rightarrow> unit outcome" where
  "connect_setup A d self log =
     (let log1 = log @ [Design_get_setup_names d] in
      case design_get_setup_names A log d of
        Inl e \<Rightarrow> (Inl e, self, log1)
      | Inr setup_names \<Rightarrow>
          (case choose_setup A d setup_names self log1 of
             (Inl e, self2, log2) \<Rightarrow> (Inl e, self2, log2)
           | (Inr _, self2, log2) \<Rightarrow>
               (case get_setup A (setup_name self2) self2 log2 of
                  (Inl e, self3, log3) \<Rightarrow> (Inl e, self3, log3)
                | (Inr _, self3, log3) \<Rightarrow> (Inr (), self3, log3))))"

text \<open>The whole method; its value is \<open>self\<close>.\<close>

definition connect :: "ansys \<Rightarrow> pinfo \<Rightarrow> call list \<Rightarrow> pinfo outcome" where
  "connect A self log =
     (case connect_project A self log of
        (Inl e, self1, log1) \<Rightarrow> (Inl e, self1, log1)
      | (Inr (p, d), self1, log1) \<Rightarrow>
          (case connect_setup A d self1 log1 of
             (Inl e, self2, log2) \<Rightarrow> (Inl (reraise setup_msg e), self2, log2)
           | (Inr _, self2, log2) \<Rightarrow>
               let self3 = self2\<lparr>project_name := Some (proj_name p),
                                 design_name := Some (des_name d)\<rparr>
               in (Inr self3, self3, log2)))"

text \<open>The calls that create an eigenmode setup, to count them in a log.\<close>

definition is_create_em_setup :: "call \<Rightarrow> bool" where
  "is_create_em_setup c = (case c of Design_create_em_setup _ \<Rightarrow> True | _ \<Rightarrow> False)"

subsection \<open>An example session\<close>

text \<open>
  A small Ansys used to evaluate the methods on concrete inputs: one project
  with the variable \<open>$Lj_2\<close> and one eigenmode design with the variable
  \<open>Lj_1\<close> and no setup until \<open>create_em_setup\<close> has been called; the
  rectangle \<open>R1\<close> is listed both as a solid and as a sheet.
\<close>

definition demo_project :: HfssProject where
  "demo_project = HfssProject 1 ''Project1''"

definition demo_design :: HfssDesign where
  "demo_design = HfssDesign 2 ''HFSSDesign1'' ''Eigenmode''"

definition demo_setup :: HfssSetup where
  "demo_setup = HfssSetup 3 ''Setup''"

definition com_error :: exn where
  "com_error = Exn (Foreign ''com_error'') ''no such design'' [''get_design''] None"

definition demo_objects :: "string \<Rightarrow> string list" where
  "demo_objects s =
     (if s = ''Solids'' then [''R1'', ''box'']
      else if s = ''Sheets'' then [''R1'', ''jj_rect_1'']
      else if s = ''Lines'' then [''jj_line_1'']
      else [])"

definition demo_ansys :: ansys where
  "demo_ansys = \<lparr>
     load_ansys_project = (\<lambda>log name path. Inr (HfssApp 0, HfssDesktop 0, demo_project)),
     project_get_path = (\<lambda>log p. Inr ''C:/sims''),
     project_get_active_design = (\<lambda>log p. Inl com_error),
     project_get_design =
       (\<lambda>log p n. if n = ''HFSSDesign1'' then Inr demo_design else Inl com_error),
     design_get_setup_names =
       (\<lambda>log d. Inr (if Design_create_em_setup d \<in> set log then [''Setup''] else [])),
     design_create_em_setup = (\<lambda>log d. Inr demo_setup),
     design_create_dm_setup = (\<lambda>log d. Inl com_error),
     design_get_setup =
       (\<lambda>log d n. Inr (if n = Some ''Setup'' \<and> Design_create_em_setup d \<in> set log
                       then Some demo_setup else None)),
     project_get_variable_names = (\<lambda>log p. Inr [''$Lj_2'']),
     design_get_variable_names = (\<lambda>log d. Inr [''Lj_1'']),
     modeler_get_objects_in_group = (\<lambda>log d s. Inr (demo_objects s)),
     project_release = (\<lambda>log p. Inr ()),
     desktop_release = (\<lambda>log k. Inr ()),
     app_release = (\<lambda>log a. Inr ()),
     ansys_release = (\<lambda>log. Inr ()) \<rparr>"

text \<open>The fields as \<open>__init__\<close> leaves them when it is given no name and does not connect.\<close>

definition unconnected :: pinfo where
  "unconnected = \<lparr>
     project_path = None, project_name = None, design_name = None, setup_name = None,
     junctions = [], ports = [],
     dissipative = \<lparr> dielectrics_bulk = None, dielectric_surfaces = None,
                     resistive_surfaces = None, seams = None \<rparr>,
     app = None, desktop = None, project = None, design = None, setup' = None \<rparr>"

definition connected :: pinfo where
  "connected = unconnected \<lparr>
     project_path := Some ''C:/sims'', project_name := Some ''Project1'',
     design_name := Some ''HFSSDesign1'', setup_name := Some ''Setup'',
     app := Some (HfssApp 0), desktop := Some (HfssDesktop 0),
     project := Some demo_project, design := Some demo_design, setup' := Some demo_setup \<rparr>"

definition demo_junction :: junction where
  "demo_junction = map_of [(''Lj_variable'', ''Lj_1''), (''rect'', ''jj_rect_1''),
                           (''line'', ''jj_line_1''), (''length'', ''5e-05'')]"

text \<open>
  Three junctions: the first is declared as the class documentation shows, the
  second names a rectangle that does not exist, the third is an empty record.
\<close>

definition demo_junctions :: "(string \<times> junction) list" where
  "demo_junctions = [(''j1'', demo_junction),
                     (''j2'', demo_junction(''rect'' \<mapsto> ''zz'')),
                     (''j3'', Map.empty)]"

section \<open>Properties\<close>

text \<open>
  C2. \<open>check_connected\<close> returns true exactly when the five handles \<open>setup\<close>,
  \<open>design\<close>, \<open>project\<close>, \<open>desktop\<close> and \<open>app\<close> are all bound; it returns false as
  soon as one of them is \<open>None\<close>; it raises nothing, leaves every field as it was
  and calls nothing in Ansys.
\<close>

theorem check_connected_iff_all_bound:
  "check_connected self log =
     (Inr (\<exists>s d p k a. setup' self = Some s \<and> design self = Some d \<and> project self = Some p
                    \<and> desktop self = Some k \<and> app self = Some a), self, log)
   \<and> ((setup' self = None \<or> design self = None \<or> project self = None
        \<or> desktop self = None \<or> app self = None)
       \<longrightarrow> fst (check_connected self log) = Inr False)"
  by (auto simp: check_connected_def)

theorem check_connected_iff_all_bound_witness:
  "app unconnected = None \<and> fst (check_connected unconnected []) = Inr False"
  using check_connected_iff_all_bound [of unconnected "[]"]
  by (simp add: unconnected_def)

subsection \<open>Object names\<close>

lemma objects_loop_success:
  "design self = Some d \<Longrightarrow> objects_loop A self ss acc log = (Inr r, self', log')
   \<Longrightarrow> self' = self \<and> log' = log @ map (Modeler_get_objects_in_group d) ss"
proof (induction ss arbitrary: acc log)
  case Nil
  then show ?case by simp
next
  case (Cons s ss)
  show ?case
  proof (cases "modeler_get_objects_in_group A log d s")
    case (Inl e)
    with Cons.prems show ?thesis by simp
  next
    case (Inr names)
    with Cons.prems have "objects_loop A self ss (acc @ names)
        (log @ [Modeler_get_objects_in_group d s]) = (Inr r, self', log')"
      by simp
    from Cons.IH [OF Cons.prems(1) this] show ?thesis by simp
  qed
qed

text \<open>
  C6. When each of the five group queries answers, \<open>get_all_object_names\<close>
  returns the names of "Non Model", "Solids", "Unclassified", "Sheets" and
  "Lines" appended in that order, having asked for the five groups in that
  order; nothing is removed, so a name occurs as many times as the five answers
  list it together (a name listed by two groups occurs twice).
\<close>

theorem get_all_object_names_concat:
  assumes "design self = Some d"
    and "modeler_get_objects_in_group A log d ''Non Model'' = Inr non_model"
    and "modeler_get_objects_in_group A
           (log @ [Modeler_get_objects_in_group d ''Non Model'']) d ''Solids'' = Inr solids"
    and "modeler_get_objects_in_group A
           (log @ [Modeler_get_objects_in_group d ''Non Model'',
                   Modeler_get_objects_in_group d ''Solids'']) d ''Unclassified''
         = Inr unclassified"
    and "modeler_get_objects_in_group A
           (log @ [Modeler_get_objects_in_group d ''Non Model'',
                   Modeler_get_objects_in_group d ''Solids'',
                   Modeler_get_objects_in_group d ''Unclassified'']) d ''Sheets'' = Inr sheets"
    and "modeler_get_objects_in_group A
           (log @ [Modeler_get_objects_in_group d ''Non Model'',
                   Modeler_get_objects_in_group d ''Solids'',
                   Modeler_get_objects_in_group d ''Unclassified'',
                   Modeler_get_objects_in_group d ''Sheets'']) d ''Lines'' = Inr lines"
  shows "get_all_object_names A self log
           = (Inr (non_model @ solids @ unclassified @ sheets @ lines), self,
              log @ [Modeler_get_objects_in_group d ''Non Model'',
                     Modeler_get_objects_in_group d ''Solids'',
                     Modeler_get_objects_in_group d ''Unclassified'',
                     Modeler_get_objects_in_group d ''Sheets'',
                     Modeler_get_objects_in_group d ''Lines''])
         \<and> (\<forall>x. count_list (non_model @ solids @ unclassified @ sheets @ lines) x
                 = count_list non_model x + count_list solids x + count_list unclassified x
                   + count_list sheets x + count_list lines x)"
  using assms by (simp add: get_all_object_names_def object_groups_def)

theorem get_all_object_names_concat_witness:
  "get_all_object_names demo_ansys connected []
     = (Inr [''R1'', ''box'', ''R1'', ''jj_rect_1'', ''jj_line_1''], connected,
        [Modeler_get_objects_in_group demo_design ''Non Model'',
         Modeler_get_objects_in_group demo_design ''Solids'',
         Modeler_get_objects_in_group demo_design ''Unclassified'',
         Modeler_get_objects_in_group demo_design ''Sheets'',
         Modeler_get_objects_in_group demo_design ''Lines''])
   \<and> count_list [''R1'', ''box'', ''R1'', ''jj_rect_1'', ''jj_line_1''] ''R1'' = 2"
  using get_all_object_names_concat [of connected demo_design demo_ansys "[]"
      "[]" "[''R1'', ''box'']" "[]" "[''R1'', ''jj_rect_1'']" "[''jj_line_1'']"]
  by (simp add: connected_def unconnected_def demo_ansys_def demo_objects_def)

subsection \<open>\<open>get_setup\<close> with no name\<close>

text \<open>
  C7, as stated, fails for the empty string: \<open>get_setup('')\<close> on a connected
  session looks the stored setup name up in Ansys and returns the setup.
\<close>

theorem get_setup_empty_name_counterexample:
  "get_setup demo_ansys (Some '''') connected [Design_create_em_setup demo_design]
     = (Inr (Some demo_setup), connected,
        [Design_create_em_setup demo_design, Design_get_setup demo_design (Some ''Setup'')])
   \<and> get_setup demo_ansys (Some '''') connected [Design_create_em_setup demo_design]
     \<noteq> (Inr None, connected, [Design_create_em_setup demo_design])"
  by (simp add: get_setup_def connected_def unconnected_def demo_ansys_def demo_setup_def)

text \<open>
  C7, amended. \<open>get_setup(None)\<close> returns \<open>None\<close>, changes no field and calls
  nothing in Ansys. Every other name, the empty string included, makes one call
  \<open>design.get_setup(name=self.setup_name)\<close> when a design is bound.
\<close>

theorem get_setup_None_is_noop:
  "get_setup A None self log = (Inr None, self, log)
   \<and> (\<forall>n d. design self = Some d \<longrightarrow>
         snd (snd (get_setup A (Some n) self log)) = log @ [Design_get_setup d (setup_name self)])"
  by (auto simp: get_setup_def Let_def split: sum.splits option.splits)

theorem get_setup_None_is_noop_witness:
  "design connected = Some demo_design
   \<and> snd (snd (get_setup demo_ansys (Some '''') connected []))
       = [Design_get_setup demo_design (Some ''Setup'')]"
  using get_setup_None_is_noop [of demo_ansys connected "[]"]
  by (simp add: connected_def unconnected_def)

subsection \<open>\<open>disconnect\<close>\<close>

text \<open>
  C5. When \<open>check_connected\<close> is false, \<open>disconnect\<close> fails its assertion and
  releases nothing. When it is true, the project is released first, then the
  desktop, then the application, then \<open>ansys.release()\<close> is called once: the
  calls made are an initial part of that sequence (a release that raises ends
  it), and all four are made when the three handle releases return. No field
  changes.
\<close>

theorem disconnect_asserts_then_releases:
  "(fst (check_connected self log) = Inr False \<longrightarrow>
      disconnect A self log = (Inl (Exn AssertionError not_connected_msg [] None), self, log))
   \<and> (fst (check_connected self log) = Inr True \<longrightarrow>
      (\<exists>p k a. project self = Some p \<and> desktop self = Some k \<and> app self = Some a
         \<and> fst (snd (disconnect A self log)) = self
         \<and> prefix (log @ [Project_release p]) (snd (snd (disconnect A self log)))
         \<and> prefix (snd (snd (disconnect A self log)))
              (log @ [Project_release p, Desktop_release k, App_release a, Ansys_release])
         \<and> (project_release A log p = Inr ()
              \<and> desktop_release A (log @ [Project_release p]) k = Inr ()
              \<and> app_release A (log @ [Project_release p, Desktop_release k]) a = Inr ()
            \<longrightarrow> disconnect A self log
                = (ansys_release A (log @ [Project_release p, Desktop_release k, App_release a]),
                   self,
                   log @ [Project_release p, Desktop_release k, App_release a, Ansys_release]))))"
proof (intro conjI impI)
  assume "fst (check_connected self log) = Inr False"
  then show "disconnect A self log
      = (Inl (Exn AssertionError not_connected_msg [] None), self, log)"
    by (simp add: disconnect_def check_connected_def)
next
  assume c: "fst (check_connected self log) = Inr True"
  then obtain p k a where h: "project self = Some p" "desktop self = Some k" "app self = Some a"
    by (auto simp: check_connected_def)
  from c have cc: "check_connected self log = (Inr True, self, log)"
    by (simp add: check_connected_def)
  have "fst (snd (disconnect A self log)) = self"
    by (simp add: disconnect_def cc h Let_def split: sum.splits)
  moreover have "prefix (log @ [Project_release p]) (snd (snd (disconnect A self log)))"
    by (simp add: disconnect_def cc h Let_def split: sum.splits)
  moreover have "prefix (snd (snd (disconnect A self log)))
      (log @ [Project_release p, Desktop_release k, App_release a, Ansys_release])"
    by (simp add: disconnect_def cc h Let_def split: sum.splits)
  moreover have "project_release A log p = Inr ()
      \<and> desktop_release A (log @ [Project_release p]) k = Inr ()
      \<and> app_release A (log @ [Project_release p, Desktop_release k]) a = Inr ()
    \<longrightarrow> disconnect A self log
        = (ansys_release A (log @ [Project_release p, Desktop_release k, App_release a]),
           self, log @ [Project_release p, Desktop_release k, App_release a, Ansys_release])"
    by (simp add: disconnect_def cc h Let_def)
  ultimately show "\<exists>p k a. project self = Some p \<and> desktop self = Some k \<and> app self = Some a
         \<and> fst (snd (disconnect A self log)) = self
         \<and> prefix (log @ [Project_release p]) (snd (snd (disconnect A self log)))
         \<and> prefix (snd (snd (disconnect A self log)))
              (log @ [Project_release p, Desktop_release k, App_release a, Ansys_release])
         \<and> (project_release A log p = Inr ()
              \<and> desktop_release A (log @ [Project_release p]) k = Inr ()
              \<and> app_release A (log @ [Project_release p, Desktop_release k]) a = Inr ()
            \<longrightarrow> disconnect A self log
                = (ansys_release A (log @ [Project_release p, Desktop_release k, App_release a]),
                   self,
                   log @ [Project_release p, Desktop_release k, App_release a, Ansys_release]))"
    using h by blast
qed

theorem disconnect_asserts_then_releases_witness:
  "fst (check_connected unconnected []) = Inr False
   \<and> disconnect demo_ansys unconnected []
       = (Inl (Exn AssertionError not_connected_msg [] None), unconnected, [])
   \<and> fst (check_connected connected []) = Inr True
   \<and> disconnect demo_ansys connected []
       = (Inr (), connected,
          [Project_release demo_project, Desktop_release (HfssDesktop 0),
           App_release (HfssApp 0), Ansys_release])"
  using disconnect_asserts_then_releases [of unconnected "[]" demo_ansys]
    disconnect_asserts_then_releases [of connected "[]" demo_ansys]
  by (simp add: check_connected_def connected_def unconnected_def demo_ansys_def)

subsection \<open>Validation with no junction\<close>

lemma get_all_variables_names_success:
  assumes "get_all_variables_names A self log = (Inr vs, self1, log1)"
  shows "self1 = self \<and> (\<exists>p d pv dv. project self = Some p \<and> design self = Some d
           \<and> project_get_variable_names A log p = Inr pv
           \<and> design_get_variable_names A (log @ [Project_get_variable_names p]) d = Inr dv
           \<and> vs = pv @ dv
           \<and> log1 = log @ [Project_get_variable_names p, Design_get_variable_names d])"
  using assms
  by (auto simp: get_all_variables_names_def Let_def split: option.splits sum.splits)

lemma get_all_object_names_success:
  assumes "get_all_object_names A self log = (Inr os, self1, log1)"
  shows "self1 = self \<and> (\<exists>d. design self = Some d
           \<and> log1 = log @ map (Modeler_get_objects_in_group d) object_groups)"
proof (cases "design self")
  case None
  with assms show ?thesis
    by (simp add: get_all_object_names_def object_groups_def)
next
  case (Some d)
  from objects_loop_success [OF Some assms [unfolded get_all_object_names_def]] Some
  show ?thesis by simp
qed

text \<open>
  C10. With no junction declared, \<open>validate_junction_info\<close> returns without
  raising whatever lists of variable and object names Ansys answers with, and it
  has still asked for them: the variable names of the project and of the
  design, then the five object groups.
\<close>

theorem validate_no_junctions:
  assumes "junctions self = []"
    and "get_all_variables_names A self log = (Inr vs, self1, log1)"
    and "get_all_object_names A self1 log1 = (Inr os, self2, log2)"
  shows "validate_junction_info A self log = (Inr (), self, log2)
         \<and> (\<exists>p d. project self = Some p \<and> design self = Some d
               \<and> log2 = log @ [Project_get_variable_names p, Design_get_variable_names d]
                        @ map (Modeler_get_objects_in_group d) object_groups)"
proof -
  from get_all_variables_names_success [OF assms(2)]
  obtain p d where v: "self1 = self" "project self = Some p" "design self = Some d"
    "log1 = log @ [Project_get_variable_names p, Design_get_variable_names d]"
    by blast
  from get_all_object_names_success [OF assms(3)] v
  have o: "self2 = self"
    "log2 = log1 @ map (Modeler_get_objects_in_group d) object_groups"
    by auto
  have "validate_junction_info A self log = (Inr (), self, log2)"
    using assms v(1) o(1) by (simp add: validate_junction_info_def)
  with v o show ?thesis by simp
qed

theorem validate_no_junctions_witness:
  "junctions connected = []
   \<and> validate_junction_info demo_ansys connected []
     = (Inr (), connected,
        [Project_get_variable_names demo_project, Design_get_variable_names demo_design,
         Modeler_get_objects_in_group demo_design ''Non Model'',
         Modeler_get_objects_in_group demo_design ''Solids'',
         Modeler_get_objects_in_group demo_design ''Unclassified'',
         Modeler_get_objects_in_group demo_design ''Sheets'',
         Modeler_get_objects_in_group demo_design ''Lines''])"
proof -
  have j: "junctions connected = []"
    by (simp add: connected_def unconnected_def)
  have v: "get_all_variables_names demo_ansys connected []
      = (Inr [''$Lj_2'', ''Lj_1''], connected,
         [Project_get_variable_names demo_project, Design_get_variable_names demo_design])"
    by (simp add: get_all_variables_names_def connected_def unconnected_def demo_ansys_def)
  have o: "get_all_object_names demo_ansys connected
        [Project_get_variable_names demo_project, Design_get_variable_names demo_design]
      = (Inr [''R1'', ''box'', ''R1'', ''jj_rect_1'', ''jj_line_1''], connected,
         [Project_get_variable_names demo_project, Design_get_variable_names demo_design,
          Modeler_get_objects_in_group demo_design ''Non Model'',
          Modeler_get_objects_in_group demo_design ''Solids'',
          Modeler_get_objects_in_group demo_design ''Unclassified'',
          Modeler_get_objects_in_group demo_design ''Sheets'',
          Modeler_get_objects_in_group demo_design ''Lines''])"
    by (simp add: get_all_object_names_def object_groups_def connected_def unconnected_def
        demo_ansys_def demo_objects_def)
  from validate_no_junctions [OF j v o] j show ?thesis by simp
qed

subsection \<open>Validation of the junctions\<close>

lemma first_violation_Cons:
  "first_violation vs os ((jjnm, jj) # js)
     = (if \<not> check_passes vs os (jjnm, ''Lj_variable'', jj ''Lj_variable'')
        then Some (jjnm, ''Lj_variable'', jj ''Lj_variable'')
        else if \<not> check_passes vs os (jjnm, ''rect'', jj ''rect'')
        then Some (jjnm, ''rect'', jj ''rect'')
        else if \<not> check_passes vs os (jjnm, ''line'', jj ''line'')
        then Some (jjnm, ''line'', jj ''line'')
        else first_violation vs os js)"
  by (simp add: first_violation_def junction_checks_def)

lemma junction_ok_checks:
  "junction_ok vs os jj
     \<longleftrightarrow> check_passes vs os (jjnm, ''Lj_variable'', jj ''Lj_variable'')
         \<and> check_passes vs os (jjnm, ''rect'', jj ''rect'')
         \<and> check_passes vs os (jjnm, ''line'', jj ''line'')"
  by (simp add: junction_ok_def check_passes_def names_for_def split: option.splits)

lemma validate_loop_first_violation:
  "validate_loop vs os js
     = (case first_violation vs os js of None \<Rightarrow> Inr () | Some c \<Rightarrow> Inl (violation_exn c))"
proof (induction js)
  case Nil
  show ?case by (simp add: first_violation_def junction_checks_def)
next
  case (Cons a js)
  obtain jjnm jj where a: "a = (jjnm, jj)" by (cases a)
  from Cons.IH show ?case
    unfolding a first_violation_Cons
    by (simp add: check_passes_def names_for_def violation_exn_def getitem_def
        split: option.splits)
qed

lemma first_violation_None_iff:
  "first_violation vs os js = None \<longleftrightarrow> (\<forall>(jjnm, jj) \<in> set js. junction_ok vs os jj)"
proof (induction js)
  case Nil
  show ?case by (simp add: first_violation_def junction_checks_def)
next
  case (Cons a js)
  obtain jjnm jj where a: "a = (jjnm, jj)" by (cases a)
  from Cons.IH show ?case
    unfolding a first_violation_Cons
    by (simp add: junction_ok_checks [of vs os jj jjnm])
qed

lemma find_Some_split:
  "find P xs = Some c \<Longrightarrow> \<exists>before after. xs = before @ c # after \<and> (\<forall>b \<in> set before. \<not> P b) \<and> P c"
proof (induction xs)
  case Nil
  then show ?case by simp
next
  case (Cons x xs)
  show ?case
  proof (cases "P x")
    case True
    with Cons.prems have "x = c" by simp
    with True show ?thesis by (intro exI [of _ "[]"] exI [of _ xs]) simp
  next
    case False
    with Cons obtain before after where
      "xs = before @ c # after" "\<forall>b \<in> set before. \<not> P b" "P c"
      by auto
    with False show ?thesis by (intro exI [of _ "x # before"] exI [of _ after]) simp
  qed
qed

lemma find_first_failure:
  "(\<forall>b \<in> set before. \<not> P b) \<Longrightarrow> P c \<Longrightarrow> find P (before @ c # after) = Some c"
  by (induction before) auto

lemma sublist_skip: "sublist xs ys \<Longrightarrow> sublist xs (zs @ ys)"
  using sublist_append by blast

lemma sublist_front: "sublist xs ys \<Longrightarrow> sublist xs (ys @ zs)"
  using sublist_append by blast

lemma Lj_variable_msg_names_junction: "sublist jjnm (Lj_variable_msg jjnm v)"
  unfolding Lj_variable_msg_def
  by (rule sublist_skip, rule sublist_skip, rule sublist_skip, rule sublist_skip, rule sublist_skip, rule sublist_append_rightI)

lemma Lj_variable_msg_names_field: "sublist ''Lj_variable'' (Lj_variable_msg jjnm v)"
  unfolding Lj_variable_msg_def
  by (rule sublist_skip, rule sublist_skip, rule sublist_skip, rule sublist_skip, rule sublist_skip, rule sublist_skip, rule sublist_skip, rule sublist_skip, rule sublist_front) (simp add: sublist_code)

lemma Lj_variable_msg_names_value: "sublist v (Lj_variable_msg jjnm v)"
  unfolding Lj_variable_msg_def
  by (rule sublist_skip, rule sublist_skip, rule sublist_skip, rule sublist_skip, rule sublist_skip, rule sublist_skip, rule sublist_skip, rule sublist_skip, rule sublist_skip, rule sublist_skip, rule sublist_skip, rule sublist_append_rightI)

lemma object_msg_names_junction: "sublist jjnm (object_msg jjnm name v)"
  unfolding object_msg_def
  by (rule sublist_skip, rule sublist_skip, rule sublist_skip, rule sublist_skip, rule sublist_skip, rule sublist_append_rightI)

lemma object_msg_names_field: "sublist name (object_msg jjnm name v)"
  unfolding object_msg_def
  by (rule sublist_skip, rule sublist_skip, rule sublist_skip, rule sublist_skip, rule sublist_skip, rule sublist_skip, rule sublist_skip, rule sublist_append_rightI)

lemma object_msg_names_value: "sublist v (object_msg jjnm name v)"
  unfolding object_msg_def
  by (rule sublist_skip, rule sublist_skip, rule sublist_skip, rule sublist_skip, rule sublist_skip, rule sublist_skip, rule sublist_skip, rule sublist_skip, rule sublist_skip, rule sublist_skip, rule sublist_skip, rule sublist_append_rightI)

lemma objects_loop_junctions:
  "objects_loop A (self\<lparr>junctions := js\<rparr>) ss acc log
     = (case objects_loop A self ss acc log of (r, s, l) \<Rightarrow> (r, s\<lparr>junctions := js\<rparr>, l))"
  by (induction ss arbitrary: acc log) (simp_all split: option.splits sum.splits)

lemma get_all_object_names_junctions:
  "get_all_object_names A (self\<lparr>junctions := js\<rparr>) log
     = (case get_all_object_names A self log of (r, s, l) \<Rightarrow> (r, s\<lparr>junctions := js\<rparr>, l))"
  by (simp add: get_all_object_names_def objects_loop_junctions)

lemma get_all_variables_names_junctions:
  "get_all_variables_names A (self\<lparr>junctions := js\<rparr>) log
     = (case get_all_variables_names A self log of (r, s, l) \<Rightarrow> (r, s\<lparr>junctions := js\<rparr>, l))"
  by (simp add: get_all_variables_names_def Let_def split: option.splits sum.splits)

lemma validate_junction_info_eq:
  assumes "get_all_variables_names A self log = (Inr vs, self1, log1)"
    and "get_all_object_names A self1 log1 = (Inr os, self2, log2)"
  shows "validate_junction_info A (self\<lparr>junctions := js\<rparr>) log
           = (validate_loop vs os js, self\<lparr>junctions := js\<rparr>, log2)"
proof -
  from get_all_variables_names_success [OF assms(1)] have 1: "self1 = self" by simp
  from get_all_object_names_success [OF assms(2)] 1 have 2: "self2 = self" by simp
  show ?thesis
    using assms unfolding 1 2
    by (simp add: validate_junction_info_def get_all_variables_names_junctions
        get_all_object_names_junctions)
qed

lemma validate_junction_info_given_lists:
  assumes vn: "get_all_variables_names A self log = (Inr vs, self1, log1)"
    and on: "get_all_object_names A self1 log1 = (Inr os, self2, log2)"
  shows
    "validate_junction_info A self log
       = ((case first_violation vs os (junctions self) of
             None \<Rightarrow> Inr () | Some c \<Rightarrow> Inl (violation_exn c)), self, log2)
     \<and> (fst (validate_junction_info A self log) = Inr ()
          \<longleftrightarrow> (\<forall>(jjnm, jj) \<in> set (junctions self). junction_ok vs os jj))
     \<and> (\<forall>jjnm f v. first_violation vs os (junctions self) = Some (jjnm, f, Some v) \<longrightarrow>
          (\<exists>msg. fst (validate_junction_info A self log) = Inl (Exn AssertionError msg [] None)
             \<and> sublist jjnm msg \<and> sublist f msg \<and> sublist v msg))
     \<and> (\<forall>c. first_violation vs os (junctions self) = Some c \<longrightarrow>
          (\<exists>before after. junction_checks (junctions self) = before @ c # after
             \<and> (\<forall>b \<in> set before. check_passes vs os b) \<and> \<not> check_passes vs os c
             \<and> (\<forall>js'. prefix (before @ [c]) (junction_checks js') \<longrightarrow>
                   validate_junction_info A (self\<lparr>junctions := js'\<rparr>) log
                     = (Inl (violation_exn c), self\<lparr>junctions := js'\<rparr>, log2))))"
proof -
  have run: "validate_junction_info A (self\<lparr>junctions := js\<rparr>) log
      = ((case first_violation vs os js of None \<Rightarrow> Inr () | Some c \<Rightarrow> Inl (violation_exn c)),
         self\<lparr>junctions := js\<rparr>, log2)" for js
    by (simp add: validate_junction_info_eq [OF vn on] validate_loop_first_violation)
  from run [of "junctions self"]
  have 1: "validate_junction_info A self log
      = ((case first_violation vs os (junctions self) of
            None \<Rightarrow> Inr () | Some c \<Rightarrow> Inl (violation_exn c)), self, log2)"
    by simp
  have 2: "fst (validate_junction_info A self log) = Inr ()
      \<longleftrightarrow> (\<forall>(jjnm, jj) \<in> set (junctions self). junction_ok vs os jj)"
    unfolding 1 first_violation_None_iff [symmetric]
    by (simp split: option.splits)
  have 3: "\<exists>msg. fst (validate_junction_info A self log) = Inl (Exn AssertionError msg [] None)
      \<and> sublist jjnm msg \<and> sublist f msg \<and> sublist v msg"
    if "first_violation vs os (junctions self) = Some (jjnm, f, Some v)" for jjnm f v
  proof (cases "f = ''Lj_variable''")
    case True
    with that show ?thesis
      unfolding 1
      by (simp add: violation_exn_def Lj_variable_msg_names_junction
          Lj_variable_msg_names_field Lj_variable_msg_names_value)
  next
    case False
    with that show ?thesis
      unfolding 1
      by (simp add: violation_exn_def object_msg_names_junction
          object_msg_names_field object_msg_names_value)
  qed
  have 4: "\<exists>before after. junction_checks (junctions self) = before @ c # after
      \<and> (\<forall>b \<in> set before. check_passes vs os b) \<and> \<not> check_passes vs os c
      \<and> (\<forall>js'. prefix (before @ [c]) (junction_checks js') \<longrightarrow>
            validate_junction_info A (self\<lparr>junctions := js'\<rparr>) log
              = (Inl (violation_exn c), self\<lparr>junctions := js'\<rparr>, log2))"
    if "first_violation vs os (junctions self) = Some c" for c
  proof -
    from find_Some_split [OF that [unfolded first_violation_def]]
    obtain before after where s: "junction_checks (junctions self) = before @ c # after"
      "\<forall>b \<in> set before. \<not> \<not> check_passes vs os b" "\<not> check_passes vs os c"
      by blast
    have "validate_junction_info A (self\<lparr>junctions := js'\<rparr>) log
        = (Inl (violation_exn c), self\<lparr>junctions := js'\<rparr>, log2)"
      if "prefix (before @ [c]) (junction_checks js')" for js'
    proof -
      from that obtain rest where "junction_checks js' = before @ c # rest"
        by (auto simp: prefix_def)
      with find_first_failure [OF s(2) s(3), of rest]
      have "first_violation vs os js' = Some c"
        by (simp add: first_violation_def)
      with run [of js'] show ?thesis by simp
    qed
    with s show ?thesis by auto
  qed
  from 1 2 3 4 show ?thesis by blast
qed

text \<open>
  C1. Let the project answer with its variable names \<open>pv\<close>, the design with its
  variable names \<open>dv\<close>, and the five object groups with their names.
  \<open>validate_junction_info\<close> succeeds exactly when every junction record has its
  \<open>Lj_variable\<close> in \<open>pv @ dv\<close>, the project names followed by the design names,
  and its \<open>rect\<close> and its \<open>line\<close> in the names of "Non Model", "Solids",
  "Unclassified", "Sheets" and "Lines" appended in that order. Otherwise it
  raises for the first failing check in insertion order: an assertion error
  whose message contains the junction name, the field name and the offending
  value (a record without the field raises \<open>KeyError\<close> for it). Nothing after
  that check is looked at: any junctions mapping whose checks agree up to and
  including the failing one raises the same exception.
\<close>

theorem validate_junction_info_first_violation:
  assumes "project self = Some p" and "design self = Some d"
    and "project_get_variable_names A log p = Inr pv"
    and "design_get_variable_names A (log @ [Project_get_variable_names p]) d = Inr dv"
    and "modeler_get_objects_in_group A
           (log @ [Project_get_variable_names p, Design_get_variable_names d])
           d ''Non Model'' = Inr non_model"
    and "modeler_get_objects_in_group A
           (log @ [Project_get_variable_names p, Design_get_variable_names d,
                   Modeler_get_objects_in_group d ''Non Model''])
           d ''Solids'' = Inr solids"
    and "modeler_get_objects_in_group A
           (log @ [Project_get_variable_names p, Design_get_variable_names d,
                   Modeler_get_objects_in_group d ''Non Model'',
                   Modeler_get_objects_in_group d ''Solids''])
           d ''Unclassified'' = Inr unclassified"
    and "modeler_get_objects_in_group A
           (log @ [Project_get_variable_names p, Design_get_variable_names d,
                   Modeler_get_objects_in_group d ''Non Model'',
                   Modeler_get_objects_in_group d ''Solids'',
                   Modeler_get_objects_in_group d ''Unclassified''])
           d ''Sheets'' = Inr sheets"
    and "modeler_get_objects_in_group A
           (log @ [Project_get_variable_names p, Design_get_variable_names d,
                   Modeler_get_objects_in_group d ''Non Model'',
                   Modeler_get_objects_in_group d ''Solids'',
                   Modeler_get_objects_in_group d ''Unclassified'',
                   Modeler_get_objects_in_group d ''Sheets''])
           d ''Lines'' = Inr lines"
  shows
    "let vs = pv @ dv;
         os = non_model @ solids @ unclassified @ sheets @ lines;
         log2 = log @ [Project_get_variable_names p, Design_get_variable_names d,
                       Modeler_get_objects_in_group d ''Non Model'',
                       Modeler_get_objects_in_group d ''Solids'',
                       Modeler_get_objects_in_group d ''Unclassified'',
                       Modeler_get_objects_in_group d ''Sheets'',
                       Modeler_get_objects_in_group d ''Lines'']
     in
     validate_junction_info A self log
       = ((case first_violation vs os (junctions self) of
             None \<Rightarrow> Inr () | Some c \<Rightarrow> Inl (violation_exn c)), self, log2)
     \<and> (fst (validate_junction_info A self log) = Inr ()
          \<longleftrightarrow> (\<forall>(jjnm, jj) \<in> set (junctions self). junction_ok vs os jj))
     \<and> (\<forall>jjnm f v. first_violation vs os (junctions self) = Some (jjnm, f, Some v) \<longrightarrow>
          (\<exists>msg. fst (validate_junction_info A self log) = Inl (Exn AssertionError msg [] None)
             \<and> sublist jjnm msg \<and> sublist f msg \<and> sublist v msg))
     \<and> (\<forall>c. first_violation vs os (junctions self) = Some c \<longrightarrow>
          (\<exists>before after. junction_checks (junctions self) = before @ c # after
             \<and> (\<forall>b \<in> set before. check_passes vs os b) \<and> \<not> check_passes vs os c
             \<and> (\<forall>js'. prefix (before @ [c]) (junction_checks js') \<longrightarrow>
                   validate_junction_info A (self\<lparr>junctions := js'\<rparr>) log
                     = (Inl (violation_exn c), self\<lparr>junctions := js'\<rparr>, log2))))"
proof -
  have vn: "get_all_variables_names A self log
      = (Inr (pv @ dv), self,
         log @ [Project_get_variable_names p, Design_get_variable_names d])"
    using assms(1-4) by (simp add: get_all_variables_names_def)
  have on: "get_all_object_names A self
        (log @ [Project_get_variable_names p, Design_get_variable_names d])
      = (Inr (non_model @ solids @ unclassified @ sheets @ lines), self,
         log @ [Project_get_variable_names p, Design_get_variable_names d,
                Modeler_get_objects_in_group d ''Non Model'',
                Modeler_get_objects_in_group d ''Solids'',
                Modeler_get_objects_in_group d ''Unclassified'',
                Modeler_get_objects_in_group d ''Sheets'',
                Modeler_get_objects_in_group d ''Lines''])"
    using assms(2) assms(5-9) by (simp add: get_all_object_names_def object_groups_def)
  show ?thesis
    unfolding Let_def by (rule validate_junction_info_given_lists [OF vn on])
qed

theorem validate_junction_info_first_violation_witness:
  "validate_junction_info demo_ansys (connected\<lparr>junctions := demo_junctions\<rparr>) []
     = (Inl (Exn AssertionError (object_msg ''j2'' ''rect'' ''zz'') [] None),
        connected\<lparr>junctions := demo_junctions\<rparr>,
        [Project_get_variable_names demo_project, Design_get_variable_names demo_design,
         Modeler_get_objects_in_group demo_design ''Non Model'',
         Modeler_get_objects_in_group demo_design ''Solids'',
         Modeler_get_objects_in_group demo_design ''Unclassified'',
         Modeler_get_objects_in_group demo_design ''Sheets'',
         Modeler_get_objects_in_group demo_design ''Lines''])
   \<and> \<not> junction_ok [''$Lj_2'', ''Lj_1''] [''R1'', ''box'', ''R1'', ''jj_rect_1'', ''jj_line_1'']
          (demo_junction(''rect'' \<mapsto> ''zz''))
   \<and> fst (validate_junction_info demo_ansys
            (connected\<lparr>junctions := [(''j1'', demo_junction),
                                       (''j4'', demo_junction(''Lj_variable'' \<mapsto> ''$Lj_2''))]\<rparr>)
            []) = Inr ()
   \<and> fst (validate_junction_info demo_ansys
            (connected\<lparr>junctions := [(''j5'', demo_junction(''Lj_variable'' \<mapsto> ''Lj_3''))]\<rparr>)
            []) = Inl (Exn AssertionError (Lj_variable_msg ''j5'' ''Lj_3'') [] None)"
proof -
  let ?vs = "[''$Lj_2'', ''Lj_1'']"
  let ?os = "[''R1'', ''box'', ''R1'', ''jj_rect_1'', ''jj_line_1'']"
  let ?good = "[(''j1'', demo_junction), (''j4'', demo_junction(''Lj_variable'' \<mapsto> ''$Lj_2''))]"
  let ?bad = "[(''j5'', demo_junction(''Lj_variable'' \<mapsto> ''Lj_3''))]"
  have p: "project (connected\<lparr>junctions := js\<rparr>) = Some demo_project"
    and d: "design (connected\<lparr>junctions := js\<rparr>) = Some demo_design" for js
    by (simp_all add: connected_def unconnected_def)
  have pv: "project_get_variable_names demo_ansys [] demo_project = Inr [''$Lj_2'']"
    and dv: "design_get_variable_names demo_ansys ([] @ log) demo_design = Inr [''Lj_1'']"
    and g1: "modeler_get_objects_in_group demo_ansys ([] @ log) demo_design ''Non Model'' = Inr []"
    and g2: "modeler_get_objects_in_group demo_ansys ([] @ log) demo_design ''Solids''
             = Inr [''R1'', ''box'']"
    and g3: "modeler_get_objects_in_group demo_ansys ([] @ log) demo_design ''Unclassified''
             = Inr []"
    and g4: "modeler_get_objects_in_group demo_ansys ([] @ log) demo_design ''Sheets''
             = Inr [''R1'', ''jj_rect_1'']"
    and g5: "modeler_get_objects_in_group demo_ansys ([] @ log) demo_design ''Lines''
             = Inr [''jj_line_1'']" for log
    by (simp_all add: demo_ansys_def demo_objects_def)
  have f: "first_violation ?vs ?os demo_junctions = Some (''j2'', ''rect'', Some ''zz'')"
    by (simp add: demo_junctions_def demo_junction_def first_violation_Cons check_passes_def
        names_for_def)
  have f': "first_violation ?vs ?os ?bad = Some (''j5'', ''Lj_variable'', Some ''Lj_3'')"
    by (simp add: demo_junction_def first_violation_Cons check_passes_def names_for_def)
  have g: "junction_ok ?vs ?os demo_junction"
    "junction_ok ?vs ?os (demo_junction(''Lj_variable'' \<mapsto> ''$Lj_2''))"
    by (simp_all add: demo_junction_def junction_ok_def)
  have n: "\<not> junction_ok ?vs ?os (demo_junction(''rect'' \<mapsto> ''zz''))"
    by (simp add: demo_junction_def junction_ok_def)
  from validate_junction_info_first_violation
      [OF p [of "demo_junctions"] d [of "demo_junctions"] pv dv g1 g2 g3 g4 g5, unfolded Let_def, THEN conjunct1] f
  have a: "validate_junction_info demo_ansys (connected\<lparr>junctions := demo_junctions\<rparr>) []
      = (Inl (Exn AssertionError (object_msg ''j2'' ''rect'' ''zz'') [] None),
         connected\<lparr>junctions := demo_junctions\<rparr>,
         [Project_get_variable_names demo_project, Design_get_variable_names demo_design,
          Modeler_get_objects_in_group demo_design ''Non Model'',
          Modeler_get_objects_in_group demo_design ''Solids'',
          Modeler_get_objects_in_group demo_design ''Unclassified'',
          Modeler_get_objects_in_group demo_design ''Sheets'',
          Modeler_get_objects_in_group demo_design ''Lines''])"
    by (simp add: violation_exn_def)
  from validate_junction_info_first_violation
      [OF p [of "?good"] d [of "?good"] pv dv g1 g2 g3 g4 g5, unfolded Let_def, THEN conjunct2, THEN conjunct1] g
  have b: "fst (validate_junction_info demo_ansys (connected\<lparr>junctions := ?good\<rparr>) [])
      = Inr ()"
    by simp
  from validate_junction_info_first_violation
      [OF p [of "?bad"] d [of "?bad"] pv dv g1 g2 g3 g4 g5, unfolded Let_def, THEN conjunct1] f'
  have c: "fst (validate_junction_info demo_ansys (connected\<lparr>junctions := ?bad\<rparr>) [])
      = Inl (Exn AssertionError (Lj_variable_msg ''j5'' ''Lj_3'') [] None)"
    by (simp add: violation_exn_def)
  from a b c n show ?thesis by simp
qed

subsection \<open>\<open>connect\<close>: the design\<close>

lemma connect_design_success:
  assumes "connect_design A p self log = (Inr d, self1, log1)"
  shows "design self1 = Some d \<and> project self1 = project self
         \<and> (\<exists>c. log1 = log @ [c] \<and> \<not> is_create_em_setup c)"
  using assms
  by (auto simp: connect_design_def Let_def is_create_em_setup_def
      split: option.splits sum.splits)

lemma connect_project_success:
  assumes "connect_project A self log = (Inr (p, d), self1, log1)"
  shows "design self1 = Some d \<and> project self1 = Some p
         \<and> (\<exists>c. log1 = log @ [Load_ansys_project (project_name self) (project_path self),
                               Project_get_path p, c]
                \<and> \<not> is_create_em_setup c)"
proof (cases "load_ansys_project A log (project_name self) (project_path self)")
  case (Inl e)
  with assms show ?thesis by (simp add: connect_project_def)
next
  case (Inr akp)
  obtain a k p' where akp: "akp = (a, k, p')" by (cases akp)
  let ?log1 = "log @ [Load_ansys_project (project_name self) (project_path self)]"
  show ?thesis
  proof (cases "project_get_path A ?log1 p'")
    case (Inl e)
    with assms Inr akp show ?thesis by (simp add: connect_project_def)
  next
    case path: (Inr path)
    let ?self0 = "self\<lparr>app := Some a, desktop := Some k, project := Some p',
                       project_name := Some (proj_name p'), project_path := Some path\<rparr>"
    from assms Inr akp path
    have c: "connect_design A p' ?self0 (?log1 @ [Project_get_path p']) = (Inr d, self1, log1)"
      and p: "p' = p"
      by (auto simp: connect_project_def split: sum.splits prod.splits)
    from connect_design_success [OF c] p show ?thesis by auto
  qed
qed

lemma exn_not_its_own_context: "e \<noteq> Exn c m t (Some e)"
proof
  assume "e = Exn c m t (Some e)"
  then have "size e = size (Exn c m t (Some e))" by simp
  then show False by simp
qed

text \<open>
  C4. When \<open>design_name\<close> is given and \<open>project.get_design\<close> raises, \<open>connect\<close>
  raises an \<open>Exception\<close> whose message asks whether the design name is correct
  (it contains "design name"), whose traceback is the traceback of the lookup
  failure and whose context is that failure; no call follows the lookup.
\<close>

theorem connect_named_design_lookup_fails:
  assumes "design_name self = Some n"
    and "load_ansys_project A log (project_name self) (project_path self) = Inr (a, k, p)"
    and "project_get_path A
           (log @ [Load_ansys_project (project_name self) (project_path self)]) p = Inr path"
    and "project_get_design A
           (log @ [Load_ansys_project (project_name self) (project_path self),
                   Project_get_path p]) p n = Inl e"
  shows "fst (connect A self log) = Inl (Exn Exception design_msg (exn_traceback e) (Some e))
         \<and> sublist ''design name'' design_msg
         \<and> snd (snd (connect A self log))
             = log @ [Load_ansys_project (project_name self) (project_path self),
                      Project_get_path p, Project_get_design p n]"
proof -
  have "sublist ''design name'' design_msg"
    unfolding design_msg_def by (rule sublist_front) (simp add: sublist_code)
  with assms show ?thesis
    by (simp add: connect_def connect_project_def connect_design_def reraise_def)
qed

theorem connect_named_design_lookup_fails_witness:
  "connect demo_ansys (unconnected\<lparr>design_name := Some ''Design9''\<rparr>) []
     = (Inl (Exn Exception design_msg [''get_design''] (Some com_error)),
        unconnected\<lparr>design_name := Some ''Design9'', app := Some (HfssApp 0),
                     desktop := Some (HfssDesktop 0), project := Some demo_project,
                     project_name := Some ''Project1'', project_path := Some ''C:/sims''\<rparr>,
        [Load_ansys_project None None, Project_get_path demo_project,
         Project_get_design demo_project ''Design9''])"
proof -
  let ?self = "unconnected\<lparr>design_name := Some ''Design9''\<rparr>"
  have 1: "design_name ?self = Some ''Design9''" by simp
  have 2: "load_ansys_project demo_ansys [] (project_name ?self) (project_path ?self)
      = Inr (HfssApp 0, HfssDesktop 0, demo_project)"
    by (simp add: demo_ansys_def)
  have 3: "project_get_path demo_ansys
      ([] @ [Load_ansys_project (project_name ?self) (project_path ?self)]) demo_project
      = Inr ''C:/sims''"
    by (simp add: demo_ansys_def)
  have 4: "project_get_design demo_ansys
      ([] @ [Load_ansys_project (project_name ?self) (project_path ?self),
             Project_get_path demo_project]) demo_project ''Design9'' = Inl com_error"
    by (simp add: demo_ansys_def)
  have 5: "fst (snd (connect demo_ansys ?self []))
      = unconnected\<lparr>design_name := Some ''Design9'', app := Some (HfssApp 0),
                     desktop := Some (HfssDesktop 0), project := Some demo_project,
                     project_name := Some ''Project1'', project_path := Some ''C:/sims''\<rparr>"
    by (simp add: connect_def connect_project_def connect_design_def demo_ansys_def
        unconnected_def demo_project_def)
  from connect_named_design_lookup_fails [OF 1 2 3 4] 5 show ?thesis
    by (simp add: com_error_def unconnected_def prod_eq_iff)
qed

text \<open>
  C8. When \<open>design_name\<close> is \<open>None\<close> and \<open>project.get_active_design\<close> raises,
  \<open>connect\<close> raises that very exception: it is not replaced by the re-raise with
  the "design name" message that the named lookup performs.
\<close>

theorem connect_active_design_lookup_fails:
  assumes "design_name self = None"
    and "load_ansys_project A log (project_name self) (project_path self) = Inr (a, k, p)"
    and "project_get_path A
           (log @ [Load_ansys_project (project_name self) (project_path self)]) p = Inr path"
    and "project_get_active_design A
           (log @ [Load_ansys_project (project_name self) (project_path self),
                   Project_get_path p]) p = Inl e"
  shows "fst (connect A self log) = Inl e
         \<and> fst (connect A self log) \<noteq> Inl (reraise design_msg e)
         \<and> snd (snd (connect A self log))
             = log @ [Load_ansys_project (project_name self) (project_path self),
                      Project_get_path p, Project_get_active_design p]"
  using assms exn_not_its_own_context [of e Exception design_msg "exn_traceback e"]
  by (simp add: connect_def connect_project_def connect_design_def reraise_def)

theorem connect_active_design_lookup_fails_witness:
  "fst (connect demo_ansys unconnected []) = Inl com_error
   \<and> snd (snd (connect demo_ansys unconnected []))
       = [Load_ansys_project None None, Project_get_path demo_project,
          Project_get_active_design demo_project]"
proof -
  have 1: "design_name unconnected = None" by (simp add: unconnected_def)
  have 2: "load_ansys_project demo_ansys [] (project_name unconnected) (project_path unconnected)
      = Inr (HfssApp 0, HfssDesktop 0, demo_project)"
    by (simp add: demo_ansys_def)
  have 3: "project_get_path demo_ansys
      ([] @ [Load_ansys_project (project_name unconnected) (project_path unconnected)])
      demo_project = Inr ''C:/sims''"
    by (simp add: demo_ansys_def)
  have 4: "project_get_active_design demo_ansys
      ([] @ [Load_ansys_project (project_name unconnected) (project_path unconnected),
             Project_get_path demo_project]) demo_project = Inl com_error"
    by (simp add: demo_ansys_def)
  from connect_active_design_lookup_fails [OF 1 2 3 4] show ?thesis
    by (simp add: unconnected_def)
qed

subsection \<open>\<open>connect\<close>: the setup\<close>

lemma connect_after_project:
  assumes "connect_project A self log = (Inr (p, d), self1, log1)"
  shows "connect A self log
           = (case connect_setup A d self1 log1 of
                (Inl e, self2, log2) \<Rightarrow> (Inl (reraise setup_msg e), self2, log2)
              | (Inr u, self2, log2) \<Rightarrow>
                  (Inr (self2\<lparr>project_name := Some (proj_name p),
                               design_name := Some (des_name d)\<rparr>),
                   self2\<lparr>project_name := Some (proj_name p),
                          design_name := Some (des_name d)\<rparr>, log2))"
  using assms by (simp add: connect_def Let_def split: prod.splits sum.splits)

lemma get_setup_bound:
  assumes "design self = Some d" and "setup_name self = Some n"
  shows "snd (snd (get_setup A (Some n) self log)) = log @ [Design_get_setup d (Some n)]"
    and "(\<forall>s'. design_get_setup A log d (Some n) = Inr (Some s') \<longrightarrow> stp_name s' = n)
         \<Longrightarrow> setup_name (fst (snd (get_setup A (Some n) self log))) = Some n"
  using assms by (auto simp: get_setup_def Let_def split: sum.splits option.splits)

lemma connect_setup_with_name:
  assumes d: "design self = Some d"
    and names: "design_get_setup_names A log d = Inr setup_names"
    and ch: "choose_setup A d setup_names self (log @ [Design_get_setup_names d])
             = (Inr (), self\<lparr>setup_name := Some n\<rparr>, log2)"
  shows "snd (snd (connect_setup A d self log)) = log2 @ [Design_get_setup d (Some n)]"
    and "(\<forall>s'. design_get_setup A log2 d (Some n) = Inr (Some s') \<longrightarrow> stp_name s' = n)
         \<Longrightarrow> setup_name (fst (snd (connect_setup A d self log))) = Some n"
proof -
  let ?self2 = "self\<lparr>setup_name := Some n\<rparr>"
  have d2: "design ?self2 = Some d" and n2: "setup_name ?self2 = Some n"
    using d by simp_all
  have eq: "connect_setup A d self log
      = (case get_setup A (Some n) ?self2 log2 of
           (Inl e, self3, log3) \<Rightarrow> (Inl e, self3, log3)
         | (Inr u, self3, log3) \<Rightarrow> (Inr (), self3, log3))"
    by (simp add: connect_setup_def names ch)
  show "snd (snd (connect_setup A d self log)) = log2 @ [Design_get_setup d (Some n)]"
    using get_setup_bound(1) [OF d2 n2, of A log2]
    unfolding eq by (auto split: prod.splits sum.splits)
  show "setup_name (fst (snd (connect_setup A d self log))) = Some n"
    if "\<forall>s'. design_get_setup A log2 d (Some n) = Inr (Some s') \<longrightarrow> stp_name s' = n"
    using get_setup_bound(2) [OF d2 n2, of A log2] that
    unfolding eq by (auto split: prod.splits sum.splits)
qed

lemma connect_log_and_setup_name:
  assumes "connect_project A self log = (Inr (p, d), self1, log1)"
  shows "snd (snd (connect A self log)) = snd (snd (connect_setup A d self1 log1))"
    and "setup_name (fst (snd (connect A self log)))
         = setup_name (fst (snd (connect_setup A d self1 log1)))"
  unfolding connect_after_project [OF assms]
  by (simp_all split: prod.splits sum.splits)

text \<open>
  C3. Let \<open>connect\<close> have bound the project and the design. If the design lists
  no setup, its solution type is "Eigenmode" and \<open>create_em_setup\<close> returns a
  setup, then that setup's name is stored in \<open>self.setup_name\<close>, \<open>connect\<close> has
  called \<open>create_em_setup\<close> exactly once, and the setup is then looked up by that
  name. If the design lists setups, the first listed name is stored, none is
  created, and the lookup is by that name. In both cases \<open>setup_name\<close> still
  holds the stored name when \<open>connect\<close> ends, unless the lookup by that name
  answers with a setup of another name (\<open>get_setup\<close> copies the name of the
  setup it binds).
\<close>

theorem connect_chooses_setup:
  assumes "connect_project A self log = (Inr (p, d), self1, log1)"
  shows
    "(\<forall>s. design_get_setup_names A log1 d = Inr [] \<and> solution_type d = ''Eigenmode''
          \<and> design_create_em_setup A (log1 @ [Design_get_setup_names d]) d = Inr s \<longrightarrow>
        choose_setup A d [] self1 (log1 @ [Design_get_setup_names d])
          = (Inr (), self1\<lparr>setup_name := Some (stp_name s)\<rparr>,
             log1 @ [Design_get_setup_names d, Design_create_em_setup d])
        \<and> snd (snd (connect A self log))
            = log1 @ [Design_get_setup_names d, Design_create_em_setup d,
                      Design_get_setup d (Some (stp_name s))]
        \<and> length (filter is_create_em_setup
                    (drop (length log) (snd (snd (connect A self log))))) = 1
        \<and> ((\<forall>s'. design_get_setup A
                    (log1 @ [Design_get_setup_names d, Design_create_em_setup d]) d
                    (Some (stp_name s)) = Inr (Some s') \<longrightarrow> stp_name s' = stp_name s)
            \<longrightarrow> setup_name (fst (snd (connect A self log))) = Some (stp_name s)))
     \<and> (\<forall>n ns. design_get_setup_names A log1 d = Inr (n # ns) \<longrightarrow>
        choose_setup A d (n # ns) self1 (log1 @ [Design_get_setup_names d])
          = (Inr (), self1\<lparr>setup_name := Some n\<rparr>, log1 @ [Design_get_setup_names d])
        \<and> snd (snd (connect A self log))
            = log1 @ [Design_get_setup_names d, Design_get_setup d (Some n)]
        \<and> filter is_create_em_setup (drop (length log) (snd (snd (connect A self log)))) = []
        \<and> ((\<forall>s'. design_get_setup A (log1 @ [Design_get_setup_names d]) d (Some n)
                    = Inr (Some s') \<longrightarrow> stp_name s' = n)
            \<longrightarrow> setup_name (fst (snd (connect A self log))) = Some n))"
proof (intro conjI allI impI)
  from connect_project_success [OF assms] obtain c where
    d: "design self1 = Some d"
    and log1: "log1 = log @ [Load_ansys_project (project_name self) (project_path self),
                            Project_get_path p, c]"
    and c: "\<not> is_create_em_setup c"
    by blast
  note cl = connect_log_and_setup_name [OF assms]
  {
    fix s
    assume h: "design_get_setup_names A log1 d = Inr [] \<and> solution_type d = ''Eigenmode''
          \<and> design_create_em_setup A (log1 @ [Design_get_setup_names d]) d = Inr s"
    then have names: "design_get_setup_names A log1 d = Inr []" by simp
    from h show ch: "choose_setup A d [] self1 (log1 @ [Design_get_setup_names d])
          = (Inr (), self1\<lparr>setup_name := Some (stp_name s)\<rparr>,
             log1 @ [Design_get_setup_names d, Design_create_em_setup d])"
      by (simp add: choose_setup_def)
    from connect_setup_with_name(1) [OF d names ch]
    show l: "snd (snd (connect A self log))
            = log1 @ [Design_get_setup_names d, Design_create_em_setup d,
                      Design_get_setup d (Some (stp_name s))]"
      unfolding cl by simp
    show "length (filter is_create_em_setup
                    (drop (length log) (snd (snd (connect A self log))))) = 1"
      unfolding l log1 using c by (simp add: is_create_em_setup_def)
    assume "\<forall>s'. design_get_setup A
                    (log1 @ [Design_get_setup_names d, Design_create_em_setup d]) d
                    (Some (stp_name s)) = Inr (Some s') \<longrightarrow> stp_name s' = stp_name s"
    from connect_setup_with_name(2) [OF d names ch this]
    show "setup_name (fst (snd (connect A self log))) = Some (stp_name s)"
      unfolding cl .
  }
  {
    fix n ns
    assume names: "design_get_setup_names A log1 d = Inr (n # ns)"
    show ch: "choose_setup A d (n # ns) self1 (log1 @ [Design_get_setup_names d])
          = (Inr (), self1\<lparr>setup_name := Some n\<rparr>, log1 @ [Design_get_setup_names d])"
      by (simp add: choose_setup_def)
    from connect_setup_with_name(1) [OF d names ch]
    show l: "snd (snd (connect A self log))
            = log1 @ [Design_get_setup_names d, Design_get_setup d (Some n)]"
      unfolding cl by simp
    show "filter is_create_em_setup (drop (length log) (snd (snd (connect A self log)))) = []"
      unfolding l log1 using c by (simp add: is_create_em_setup_def)
    assume "\<forall>s'. design_get_setup A (log1 @ [Design_get_setup_names d]) d (Some n)
                    = Inr (Some s') \<longrightarrow> stp_name s' = n"
    from connect_setup_with_name(2) [OF d names ch this]
    show "setup_name (fst (snd (connect A self log))) = Some n"
      unfolding cl .
  }
qed

theorem connect_chooses_setup_witness:
  "snd (snd (connect demo_ansys (unconnected\<lparr>design_name := Some ''HFSSDesign1''\<rparr>) []))
     = [Load_ansys_project None None, Project_get_path demo_project,
        Project_get_design demo_project ''HFSSDesign1'', Design_get_setup_names demo_design,
        Design_create_em_setup demo_design, Design_get_setup demo_design (Some ''Setup'')]
   \<and> setup_name (fst (snd (connect demo_ansys
         (unconnected\<lparr>design_name := Some ''HFSSDesign1''\<rparr>) []))) = Some ''Setup''
   \<and> snd (snd (connect demo_ansys (unconnected\<lparr>design_name := Some ''HFSSDesign1''\<rparr>)
         [Design_create_em_setup demo_design]))
     = [Design_create_em_setup demo_design, Load_ansys_project None None,
        Project_get_path demo_project, Project_get_design demo_project ''HFSSDesign1'',
        Design_get_setup_names demo_design, Design_get_setup demo_design (Some ''Setup'')]
   \<and> setup_name (fst (snd (connect demo_ansys
         (unconnected\<lparr>design_name := Some ''HFSSDesign1''\<rparr>)
         [Design_create_em_setup demo_design]))) = Some ''Setup''"
proof -
  let ?self = "unconnected\<lparr>design_name := Some ''HFSSDesign1''\<rparr>"
  let ?self1 = "?self\<lparr>app := Some (HfssApp 0), desktop := Some (HfssDesktop 0),
                        project := Some demo_project,
                        project_name := Some (proj_name demo_project),
                        project_path := Some ''C:/sims'', design := Some demo_design\<rparr>"
  let ?calls = "[Load_ansys_project None None, Project_get_path demo_project,
                 Project_get_design demo_project ''HFSSDesign1'']"
  have cp: "connect_project demo_ansys ?self log
      = (Inr (demo_project, demo_design), ?self1, log @ ?calls)" for log
    by (simp add: connect_project_def connect_design_def demo_ansys_def unconnected_def)
  have e: "solution_type demo_design = ''Eigenmode''" "stp_name demo_setup = ''Setup''"
    by (simp_all add: demo_design_def demo_setup_def)
  have none: "design_get_setup_names demo_ansys ([] @ ?calls) demo_design = Inr []"
    by (simp add: demo_ansys_def)
  have mk: "design_create_em_setup demo_ansys
      (([] @ ?calls) @ [Design_get_setup_names demo_design]) demo_design = Inr demo_setup"
    by (simp add: demo_ansys_def)
  have look: "\<forall>s'. design_get_setup demo_ansys log demo_design (Some (stp_name demo_setup))
      = Inr (Some s') \<longrightarrow> stp_name s' = stp_name demo_setup" for log
    by (simp add: demo_ansys_def)
  from connect_chooses_setup [OF cp, of "[]", THEN conjunct1, rule_format, of demo_setup]
    none e(1) mk look
  have a: "snd (snd (connect demo_ansys ?self []))
      = ([] @ ?calls) @ [Design_get_setup_names demo_design, Design_create_em_setup demo_design,
           Design_get_setup demo_design (Some (stp_name demo_setup))]
    \<and> setup_name (fst (snd (connect demo_ansys ?self []))) = Some (stp_name demo_setup)"
    by blast
  have some: "design_get_setup_names demo_ansys
      ([Design_create_em_setup demo_design] @ ?calls) demo_design = Inr [''Setup'']"
    by (simp add: demo_ansys_def)
  have look2: "\<forall>s'. design_get_setup demo_ansys log demo_design (Some ''Setup'')
      = Inr (Some s') \<longrightarrow> stp_name s' = ''Setup''" for log
    by (simp add: demo_ansys_def demo_setup_def)
  from connect_chooses_setup [OF cp, of "[Design_create_em_setup demo_design]",
      THEN conjunct2, rule_format, of "''Setup''" "[]"] some look2
  have b: "snd (snd (connect demo_ansys ?self [Design_create_em_setup demo_design]))
      = ([Design_create_em_setup demo_design] @ ?calls)
        @ [Design_get_setup_names demo_design, Design_get_setup demo_design (Some ''Setup'')]
    \<and> setup_name (fst (snd (connect demo_ansys ?self [Design_create_em_setup demo_design])))
      = Some ''Setup''"
    by blast
  from a b e(2) show ?thesis by simp
qed

end
